theory Spec2Isabelle
  imports Complex_Main "HOL-Library.AList"
begin

section \<open>Exceptions\<close>

text \<open>
  The exceptions of \<^verbatim>\<open>download.py\<close> and of the library calls it makes, as values.
  All of them are subclasses of Python's \<^verbatim>\<open>Exception\<close>, which is what the
  \<^verbatim>\<open>except\<close> clause of \<^verbatim>\<open>main\<close> catches.
\<close>

datatype exn =
    RequestException string
  | HTTPError nat
  | JSONDecodeError
  | AttributeError
  | KeyError string
  | ValueError
  | OutOfBoundsDatetime
  | OSError string

section \<open>The trading-day sequencer\<close>

text \<open>
  A \<^verbatim>\<open>pd.Timestamp\<close> at midnight is its proleptic Gregorian day number
  (\<^verbatim>\<open>toordinal()\<close>: day 1 is Monday 0001-01-01), so \<^verbatim>\<open>weekday()\<close> is
  \<^verbatim>\<open>(ordinal + 6) % 7\<close> with Monday = 0. The bounds are calendar dates (the command line
  asks for \<^verbatim>\<open>YYYY-MM-DD\<close>), so every timestamp of the loop is at midnight. pandas keeps
  timestamps between the years 1677 and 2262; the day numbers here have no bound.
\<close>

definition weekday :: "int \<Rightarrow> int" where
  "weekday cur = (cur + 6) mod 7"

text \<open>
  \<^verbatim>\<open>cur + BDay()\<close>: the offset of one business day, as pandas applies it for
  \<^verbatim>\<open>n = 1\<close>: from a weekend day roll forward to Monday, from Monday to Thursday
  move one day, from Friday skip the weekend.
\<close>

definition BDay :: "int \<Rightarrow> int" where
  "BDay cur =
     (let wday = weekday cur;
          days = (if wday > 4 then 7 - wday
                  else if wday + 1 \<le> 4 then 1
                  else 1 + 2)
      in cur + days)"

text \<open>
  The \<^verbatim>\<open>while cur <= end\<close> loop of \<^verbatim>\<open>daterange\<close>, collecting the timestamps whose
  rendering is yielded.
\<close>

function daterange_loop :: "int \<Rightarrow> int \<Rightarrow> int list" where
  "daterange_loop cur end =
     (if cur \<le> end
      then (if weekday cur < 5 then [cur] else []) @ daterange_loop (BDay cur) end
      else [])"
  by pat_completeness auto
termination
proof (relation "measure (\<lambda>(cur, end). nat (end + 1 - cur))")
  show "wf (measure (\<lambda>(cur, end). nat (end + 1 - cur)))" by simp
next
  fix cur :: int and "end" :: int
  assume "cur \<le> end"
  moreover have "cur < BDay cur"
    unfolding BDay_def weekday_def Let_def by presburger
  ultimately show "((BDay cur, end), (cur, end)) \<in> measure (\<lambda>(cur, end). nat (end + 1 - cur))"
    by simp
qed

declare daterange_loop.simps [simp del]


section \<open>JSON bodies and data frames\<close>

text \<open>
  What \<^verbatim>\<open>r.json()\<close> returns. A JSON number is an ideal real (Python tells \<^verbatim>\<open>int\<close> from
  \<^verbatim>\<open>float\<close>, the code does not); a \<^verbatim>\<open>dict\<close> is the list of its items.
\<close>

datatype json =
    JNull
  | JBool bool
  | JNum real
  | JStr string
  | JArr "json list"
  | JObj "(string \<times> json) list"

text \<open>\<^verbatim>\<open>js.get(key, default)\<close>: only a \<^verbatim>\<open>dict\<close> has the method.\<close>

fun dict_get :: "json \<Rightarrow> string \<Rightarrow> json \<Rightarrow> exn + json" where
  "dict_get (JObj items) key dflt = Inr (case map_of items key of None \<Rightarrow> dflt | Some v \<Rightarrow> v)"
| "dict_get _ key dflt = Inl AttributeError"

text \<open>\<^verbatim>\<open>js[key]\<close> on the \<^verbatim>\<open>dict\<close> that \<^verbatim>\<open>get\<close> has accepted.\<close>

fun dict_getitem :: "json \<Rightarrow> string \<Rightarrow> exn + json" where
  "dict_getitem (JObj items) key =
     (case map_of items key of None \<Rightarrow> Inl (KeyError key) | Some v \<Rightarrow> Inr v)"
| "dict_getitem _ key = Inl (KeyError key)"

text \<open>\<^verbatim>\<open>x == 0\<close> in Python: true of the number zero and of \<^verbatim>\<open>False\<close>.\<close>

fun eq_zero :: "json \<Rightarrow> bool" where
  "eq_zero (JNum x) = (x = 0)"
| "eq_zero (JBool b) = (\<not> b)"
| "eq_zero _ = False"

text \<open>
  A timezone-aware \<^verbatim>\<open>Timestamp\<close>: the instant in milliseconds since the epoch and the
  zone it is shown in. Timestamps compare by instant.
\<close>

record timestamp =
  epoch_ms :: real
  tz :: string

datatype cell = Val json | NaN | Time timestamp | NaT

text \<open>
  A \<^verbatim>\<open>DataFrame\<close>, column by column: the index with its name, and the named columns in
  order. Every column is as long as the index.
\<close>

record dataframe =
  index_name :: "string option"
  index :: "cell list"
  columns :: "(string \<times> cell list) list"

text \<open>\<^verbatim>\<open>pd.DataFrame()\<close>\<close>

definition DataFrame_empty :: dataframe where
  "DataFrame_empty = \<lparr>index_name = None, index = [], columns = []\<rparr>"

text \<open>\<^verbatim>\<open>df.empty\<close>: one of the axes has length 0. \<^verbatim>\<open>len(df)\<close>: the number of rows.\<close>

definition df_empty :: "dataframe \<Rightarrow> bool" where
  "df_empty df = (index df = [] \<or> columns df = [])"

definition df_len :: "dataframe \<Rightarrow> nat" where
  "df_len df = length (index df)"

fun is_dict :: "json \<Rightarrow> bool" where
  "is_dict (JObj items) = True"
| "is_dict _ = False"

fun keys :: "json \<Rightarrow> string list" where
  "keys (JObj items) = map fst items"
| "keys _ = []"

fun lookup :: "json \<Rightarrow> string \<Rightarrow> cell" where
  "lookup (JObj items) key = (case map_of items key of None \<Rightarrow> NaN | Some v \<Rightarrow> Val v)"
| "lookup _ key = NaN"

text \<open>
  \<^verbatim>\<open>pd.DataFrame(js["results"])\<close> for the provider's shape, a list of records: one row per
  record under a \<^verbatim>\<open>RangeIndex\<close>, one column per key in order of first appearance, \<^verbatim>\<open>NaN\<close>
  where a record lacks a key. Any other shape of \<^verbatim>\<open>results\<close> is outside the provider's
  schema and is an error here (pandas accepts some such shapes and rejects others).
\<close>

definition DataFrame :: "json \<Rightarrow> exn + dataframe" where
  "DataFrame data =
     (case data of
        JArr recs \<Rightarrow>
          if list_all is_dict recs
          then Inr \<lparr>index_name = None,
                    index = map (\<lambda>i. Val (JNum (real i))) [0..<length recs],
                    columns = map (\<lambda>k. (k, map (\<lambda>r. lookup r k) recs))
                                  (rev (remdups (rev (concat (map keys recs)))))\<rparr>
          else Inl ValueError
      | _ \<Rightarrow> Inl ValueError)"

text \<open>\<^verbatim>\<open>df[key]\<close>\<close>

definition getitem :: "dataframe \<Rightarrow> string \<Rightarrow> exn + cell list" where
  "getitem df key =
     (case map_of (columns df) key of None \<Rightarrow> Inl (KeyError key) | Some col \<Rightarrow> Inr col)"

text \<open>\<^verbatim>\<open>df[key] = col\<close>: replaces the column in place, or appends it.\<close>

definition setitem :: "dataframe \<Rightarrow> string \<Rightarrow> cell list \<Rightarrow> dataframe" where
  "setitem df key col = df\<lparr>columns := AList.update key col (columns df)\<rparr>"

text \<open>\<^verbatim>\<open>df[[k1, ..., kn]]\<close>: the listed columns in the listed order.\<close>

definition select :: "dataframe \<Rightarrow> string list \<Rightarrow> exn + dataframe" where
  "select df ks =
     (case filter (\<lambda>k. map_of (columns df) k = None) ks of
        [] \<Rightarrow> Inr (df\<lparr>columns := map (\<lambda>k. (k, the (map_of (columns df) k))) ks\<rparr>)
      | k # _ \<Rightarrow> Inl (KeyError k))"

text \<open>\<^verbatim>\<open>df.rename(columns=mapping)\<close>\<close>

definition rename :: "dataframe \<Rightarrow> (string \<times> string) list \<Rightarrow> dataframe" where
  "rename df mapping =
     df\<lparr>columns := map (\<lambda>(k, col). (case map_of mapping k of None \<Rightarrow> k | Some k' \<Rightarrow> k', col))
                        (columns df)\<rparr>"

text \<open>\<^verbatim>\<open>df.set_index(key)\<close>: the column becomes the index and leaves the columns.\<close>

definition set_index :: "dataframe \<Rightarrow> string \<Rightarrow> exn + dataframe" where
  "set_index df key =
     (case map_of (columns df) key of
        None \<Rightarrow> Inl (KeyError key)
      | Some col \<Rightarrow> Inr (df\<lparr>index_name := Some key, index := col,
                            columns := filter (\<lambda>p. fst p \<noteq> key) (columns df)\<rparr>))"

text \<open>
  \<^verbatim>\<open>pd.to_datetime(col, unit="ms", utc=True)\<close>, cell by cell. pandas keeps an instant as
  a signed 64-bit count of nanoseconds and raises when the milliseconds do not fit.
  A missing value becomes \<^verbatim>\<open>NaT\<close>; a cell that is no number is an error here.
\<close>

fun to_datetime_ms :: "cell \<Rightarrow> exn + cell" where
  "to_datetime_ms (Val (JNum x)) =
     (if - (2 ^ 63) < x * 1000000 \<and> x * 1000000 < 2 ^ 63
      then Inr (Time \<lparr>epoch_ms = x, tz = ''UTC''\<rparr>)
      else Inl OutOfBoundsDatetime)"
| "to_datetime_ms (Val JNull) = Inr NaT"
| "to_datetime_ms NaN = Inr NaT"
| "to_datetime_ms NaT = Inr NaT"
| "to_datetime_ms (Time ts) = Inr (Time (ts\<lparr>tz := ''UTC''\<rparr>))"
| "to_datetime_ms _ = Inl ValueError"

text \<open>Applying a cell conversion down a column; the first error wins.\<close>

fun map_exn :: "('a \<Rightarrow> exn + 'b) \<Rightarrow> 'a list \<Rightarrow> exn + 'b list" where
  "map_exn f [] = Inr []"
| "map_exn f (x # xs) =
     (case f x of
        Inl e \<Rightarrow> Inl e
      | Inr y \<Rightarrow> (case map_exn f xs of Inl e \<Rightarrow> Inl e | Inr ys \<Rightarrow> Inr (y # ys)))"

text \<open>\<^verbatim>\<open>.dt.tz_convert(zone)\<close>: the same instants, shown in \<^verbatim>\<open>zone\<close>.\<close>

fun tz_convert :: "string \<Rightarrow> cell \<Rightarrow> cell" where
  "tz_convert zone (Time ts) = Time (ts\<lparr>tz := zone\<rparr>)"
| "tz_convert zone c = c"

text \<open>\<^verbatim>\<open>Index.is_monotonic_increasing\<close> on an index of timestamps.\<close>

fun instant :: "cell \<Rightarrow> real option" where
  "instant (Time ts) = Some (epoch_ms ts)"
| "instant _ = None"

definition is_monotonic_increasing :: "cell list \<Rightarrow> bool" where
  "is_monotonic_increasing idx =
     (list_all (\<lambda>c. instant c \<noteq> None) idx \<and> sorted (map (\<lambda>c. the (instant c)) idx))"

section \<open>The day fetcher\<close>

record response =
  status_code :: nat
  json_body :: "json option"

text \<open>
  What one \<^verbatim>\<open>requests.get\<close> does: it takes some time, and raises or returns a response.
\<close>

record reply =
  elapsed :: real
  outcome :: "exn + response"

text \<open>
  The world outside the program: the key read from \<^verbatim>\<open>api_key.txt\<close>, the provider behind
  \<^verbatim>\<open>requests.get(url, params)\<close>, the two pandas calls of \<^verbatim>\<open>daterange\<close>
  (\<^verbatim>\<open>pd.to_datetime\<close> on a date string and \<^verbatim>\<open>strftime("%Y-%m-%d")\<close>), and the file system
  under \<^verbatim>\<open>df.to_csv(path)\<close>: the write succeeds (\<open>None\<close>), or it raises an exception and leaves
  at the path what it leaves, a partial file or nothing.
\<close>

record env =
  API_KEY :: string
  requests_get :: "string \<Rightarrow> (string \<times> string) list \<Rightarrow> reply"
  to_datetime :: "string \<Rightarrow> exn + int"
  strftime :: "int \<Rightarrow> string"
  to_csv :: "string \<Rightarrow> dataframe \<Rightarrow> (exn \<times> dataframe option) option"

datatype msg = Skip string | Warn string exn | Info string | Ok string nat

datatype event = Get real string "(string \<times> string) list" | Sleep real real

text \<open>
  The locals of \<^verbatim>\<open>main\<close> (\<^verbatim>\<open>reqs_in_window\<close>, \<^verbatim>\<open>window_start\<close>) and what the program
  touches: the clock that \<^verbatim>\<open>time.time()\<close> reads, the files by path, the lines printed,
  and the requests sent and sleeps taken, each with the time it began. \<open>raised\<close> is the
  exception that no \<^verbatim>\<open>except\<close> clause has caught, if there is one: it ends the run.
\<close>

record state =
  reqs_in_window :: int
  window_start :: real
  clock :: real
  files :: "string \<Rightarrow> dataframe option"
  console :: "msg list"
  events :: "event list"
  raised :: "exn option"

definition ROOT_URL :: "string \<Rightarrow> string \<Rightarrow> string" where
  "ROOT_URL ticker day =
     ''https://api.polygon.io/v2/aggs/ticker/'' @ ticker @ ''/range/1/minute/'' @ day @ ''/'' @ day"

definition bind_exn :: "exn + 'a \<Rightarrow> ('a \<Rightarrow> exn + 'b) \<Rightarrow> exn + 'b" where
  "bind_exn m f = (case m of Inl e \<Rightarrow> Inl e | Inr x \<Rightarrow> f x)"

text \<open>
  Lines 49 to 60 of \<^verbatim>\<open>fetch_day\<close>: from the response to the frame.
  \<^verbatim>\<open>raise_for_status\<close> raises on a 4xx or 5xx status.
\<close>

definition fetch_day_frame :: "response \<Rightarrow> exn + dataframe" where
  "fetch_day_frame r =
     (if 400 \<le> status_code r \<and> status_code r < 600 then Inl (HTTPError (status_code r))
      else case json_body r of
        None \<Rightarrow> Inl JSONDecodeError
      | Some js \<Rightarrow>
          bind_exn (dict_get js ''resultsCount'' (JNum 0)) (\<lambda>cnt.
            if eq_zero cnt then Inr DataFrame_empty
            else
              bind_exn (dict_getitem js ''results'') (\<lambda>results.
              bind_exn (DataFrame results) (\<lambda>df.
              bind_exn (getitem df ''t'') (\<lambda>t.
              bind_exn (map_exn to_datetime_ms t) (\<lambda>dt.
              bind_exn (select (setitem df ''datetime'' (map (tz_convert ''America/New_York'') dt))
                         [''datetime'', ''o'', ''h'', ''l'', ''c'', ''v'']) (\<lambda>df'.
              set_index (rename df' [(''o'', ''open''), (''h'', ''high''), (''l'', ''low''),
                                     (''c'', ''close''), (''v'', ''volume'')])
                        ''datetime'')))))))"

text \<open>The query parameters of line 42; the limit is the provider's largest page.\<close>

definition params :: "env \<Rightarrow> (string \<times> string) list" where
  "params E = [(''adjusted'', ''true''), (''sort'', ''asc''), (''limit'', ''50000''),
               (''apiKey'', API_KEY E)]"

text \<open>
  \<^verbatim>\<open>fetch_day\<close>: one request, sent at the current time and taking as long as the reply
  says, then the frame of its response.
\<close>

definition fetch_day :: "env \<Rightarrow> string \<Rightarrow> string \<Rightarrow> state \<Rightarrow> (exn + dataframe) \<times> state" where
  "fetch_day E ticker day s =
     (let url = ROOT_URL ticker day;
          r = requests_get E url (params E);
          s' = s\<lparr>events := events s @ [Get (clock s) url (params E)],
                  clock := clock s + elapsed r\<rparr>
      in (bind_exn (outcome r) fetch_day_frame, s'))"

text \<open>
  The provider's schema for one result record: a \<^verbatim>\<open>dict\<close> with a numeric \<^verbatim>\<open>t\<close> that fits
  a timestamp and the five fields \<^verbatim>\<open>o\<close>, \<^verbatim>\<open>h\<close>, \<^verbatim>\<open>l\<close>, \<^verbatim>\<open>c\<close>, \<^verbatim>\<open>v\<close>; and the \<^verbatim>\<open>t\<close> of
  such a record.
\<close>

definition is_bar :: "json \<Rightarrow> bool" where
  "is_bar rec =
     (is_dict rec
      \<and> (case lookup rec ''t'' of
            Val (JNum t) \<Rightarrow> - (2 ^ 63) < t * 1000000 \<and> t * 1000000 < 2 ^ 63
          | _ \<Rightarrow> False)
      \<and> list_all (\<lambda>k. lookup rec k \<noteq> NaN) [''o'', ''h'', ''l'', ''c'', ''v''])"

definition bar_t :: "json \<Rightarrow> real" where
  "bar_t rec = (case lookup rec ''t'' of Val (JNum t) \<Rightarrow> t | _ \<Rightarrow> 0)"

section \<open>The sequencer on date strings\<close>

definition daterange :: "env \<Rightarrow> string \<Rightarrow> string \<Rightarrow> exn + string list" where
  "daterange E start end =
     bind_exn (to_datetime E start) (\<lambda>cur.
     bind_exn (to_datetime E end) (\<lambda>end'.
       Inr (map (strftime E) (daterange_loop cur end'))))"

section \<open>The orchestrator\<close>

text \<open>\<^verbatim>\<open>s.replace(old, new)\<close> for one-character \<^verbatim>\<open>old\<close> and \<^verbatim>\<open>new\<close>.\<close>

definition replace :: "char \<Rightarrow> char \<Rightarrow> string \<Rightarrow> string" where
  "replace old new s = map (\<lambda>c. if c = old then new else c) s"

text \<open>\<^verbatim>\<open>outdir / f"{ticker.replace(':','_')}_{day}.csv"\<close>\<close>

definition csv_path :: "string \<Rightarrow> string \<Rightarrow> string \<Rightarrow> string" where
  "csv_path outdir ticker day =
     outdir @ ''/'' @ replace (CHR '':'') (CHR ''_'') ticker @ ''_'' @ day @ ''.csv''"

definition sleep :: "real \<Rightarrow> state \<Rightarrow> state" where
  "sleep secs s = s\<lparr>events := events s @ [Sleep (clock s) secs], clock := clock s + secs\<rparr>"

text \<open>Lines 95 to 100: the rate limiter.\<close>

definition rate_limit :: "state \<Rightarrow> state" where
  "rate_limit s =
     (if reqs_in_window s = 5
      then let delta = 60 - (clock s - window_start s);
               s' = (if delta > 0 then sleep (delta + 0.1) s else s)
           in s'\<lparr>window_start := clock s', reqs_in_window := 0\<rparr>
      else s)"

text \<open>
  The body of the \<^verbatim>\<open>for\<close> loop, lines 89 to 114, for one day. The \<^verbatim>\<open>try\<close> covers
  \<^verbatim>\<open>fetch_day\<close> only: an exception of \<^verbatim>\<open>df.to_csv\<close> is not caught, so the step ends there,
  before the line \<^verbatim>\<open>[ok]\<close> and before the count goes up.
\<close>

definition step :: "env \<Rightarrow> string \<Rightarrow> string \<Rightarrow> string \<Rightarrow> state \<Rightarrow> state" where
  "step E outdir ticker day s =
     (let path = csv_path outdir ticker day in
      if files s path \<noteq> None then s\<lparr>console := console s @ [Skip path]\<rparr>
      else
        case fetch_day E ticker day (rate_limit s) of
          (Inl e, s') \<Rightarrow> s'\<lparr>console := console s' @ [Warn day e]\<rparr>
        | (Inr df, s') \<Rightarrow>
            if df_empty df
            then s'\<lparr>console := console s' @ [Info day],
                    reqs_in_window := reqs_in_window s' + 1\<rparr>
            else
              (case to_csv E path df of
                 Some (e, left) \<Rightarrow> s'\<lparr>files := (files s')(path := left), raised := Some e\<rparr>
               | None \<Rightarrow>
                   s'\<lparr>files := (files s')(path \<mapsto> df),
                      console := console s' @ [Ok path (df_len df)],
                      reqs_in_window := reqs_in_window s' + 1\<rparr>))"

text \<open>
  The \<^verbatim>\<open>for\<close> loop over the days: an uncaught exception in the body of a day ends it, and
  the days after that one are not reached.
\<close>

fun main_loop :: "env \<Rightarrow> string \<Rightarrow> string \<Rightarrow> string list \<Rightarrow> state \<Rightarrow> state" where
  "main_loop E outdir ticker [] s = s"
| "main_loop E outdir ticker (day # days) s =
     (let s' = step E outdir ticker day s
      in if raised s' = None then main_loop E outdir ticker days s' else s')"

record args =
  arg_ticker :: string
  arg_start :: string
  arg_end :: string
  arg_out :: string

text \<open>
  \<^verbatim>\<open>main\<close> on parsed arguments: it starts the rate window at the current time and runs
  the loop over the days of \<^verbatim>\<open>daterange\<close>. An error of \<^verbatim>\<open>daterange\<close> ends the run before
  the first day (\<open>Inl\<close>); an exception that ends the loop later is in \<open>raised\<close> of the
  state the run has reached.
\<close>

definition main :: "env \<Rightarrow> args \<Rightarrow> state \<Rightarrow> exn + state" where
  "main E a s =
     bind_exn (daterange E (arg_start a) (arg_end a)) (\<lambda>days.
       Inr (main_loop E (arg_out a) (arg_ticker a) days
              (s\<lparr>reqs_in_window := 0, window_start := clock s, raised := None\<rparr>)))"

text \<open>The requests and sleeps of a run that went from \<open>s\<close> to \<open>s'\<close>.\<close>

definition events_since :: "state \<Rightarrow> state \<Rightarrow> event list" where
  "events_since s s' = drop (length (events s)) (events s')"

section \<open>A calendar and some providers, for examples\<close>

text \<open>
  The proleptic Gregorian calendar on \<^verbatim>\<open>YYYY-MM-DD\<close> strings, which is what
  \<^verbatim>\<open>pd.to_datetime\<close> and \<^verbatim>\<open>strftime("%Y-%m-%d")\<close> compute on such strings. The theorems
  below hold for every environment; the examples run in this one.
\<close>

definition is_leap :: "int \<Rightarrow> bool" where
  "is_leap year = (year mod 4 = 0 \<and> (year mod 100 \<noteq> 0 \<or> year mod 400 = 0))"

definition days_before_year :: "int \<Rightarrow> int" where
  "days_before_year year = (let y = year - 1 in y * 365 + y div 4 - y div 100 + y div 400)"

definition days_in_month :: "int \<Rightarrow> nat \<Rightarrow> int" where
  "days_in_month year month =
     (if month = 2 \<and> is_leap year then 29
      else [31, 28, 31, 30, 31, 30, 31, 31, 30, 31, 30, 31] ! (month - 1))"

definition days_before_month :: "int \<Rightarrow> nat \<Rightarrow> int" where
  "days_before_month year month = sum_list (map (days_in_month year) [1..<month])"

definition ymd2ord :: "int \<Rightarrow> nat \<Rightarrow> int \<Rightarrow> int" where
  "ymd2ord year month day = days_before_year year + days_before_month year month + day"

text \<open>The month and the day of the month of day \<open>n\<close> (from 0) of a year.\<close>

fun month_day :: "int \<Rightarrow> nat \<Rightarrow> nat \<Rightarrow> int \<Rightarrow> nat \<times> int" where
  "month_day year 0 month n = (month, n + 1)"
| "month_day year (Suc fuel) month n =
     (if n < days_in_month year month then (month, n + 1)
      else month_day year fuel (Suc month) (n - days_in_month year month))"

definition ord2ymd :: "int \<Rightarrow> int \<times> nat \<times> int" where
  "ord2ymd n =
     (let n0 = n - 1;
          n400 = n0 div 146097; r400 = n0 mod 146097;
          n100 = r400 div 36524; r100 = r400 mod 36524;
          n4 = r100 div 1461; r4 = r100 mod 1461;
          n1 = r4 div 365; r1 = r4 mod 365;
          year = n400 * 400 + 1 + n100 * 100 + n4 * 4 + n1
      in if n1 = 4 \<or> n100 = 4 then (year - 1, 12, 31)
         else (case month_day year 11 1 r1 of (month, day) \<Rightarrow> (year, month, day)))"

definition digit :: "char \<Rightarrow> int option" where
  "digit c = map_of (zip ''0123456789'' [0, 1, 2, 3, 4, 5, 6, 7, 8, 9]) c"

fun number :: "int \<Rightarrow> string \<Rightarrow> int option" where
  "number acc [] = Some acc"
| "number acc (c # cs) =
     (case digit c of None \<Rightarrow> None | Some k \<Rightarrow> number (10 * acc + k) cs)"

definition fromisoformat :: "string \<Rightarrow> exn + int" where
  "fromisoformat s =
     (if length s = 10 \<and> s ! 4 = CHR ''-'' \<and> s ! 7 = CHR ''-''
      then (case (number 0 (take 4 s), number 0 (take 2 (drop 5 s)), number 0 (drop 8 s)) of
              (Some y, Some m, Some d) \<Rightarrow>
                if 1 \<le> y \<and> 1 \<le> m \<and> m \<le> 12 \<and> 1 \<le> d \<and> d \<le> days_in_month y (nat m)
                then Inr (ymd2ord y (nat m) d)
                else Inl ValueError
            | _ \<Rightarrow> Inl ValueError)
      else Inl ValueError)"

definition digits :: "nat \<Rightarrow> int \<Rightarrow> string" where
  "digits w n = map (\<lambda>i. ''0123456789'' ! nat (n div 10 ^ (w - 1 - i) mod 10)) [0..<w]"

definition isoformat :: "int \<Rightarrow> string" where
  "isoformat n =
     (case ord2ymd n of (y, m, d) \<Rightarrow> digits 4 y @ ''-'' @ digits 2 (int m) @ ''-'' @ digits 2 d)"

text \<open>An environment with this calendar, a given provider and a disk that takes every write.\<close>

definition calendar_env :: "(string \<Rightarrow> (string \<times> string) list \<Rightarrow> reply) \<Rightarrow> env" where
  "calendar_env provider =
     \<lparr>API_KEY = ''KEY'', requests_get = provider,
      to_datetime = fromisoformat, strftime = isoformat,
      to_csv = (\<lambda>path df. None)\<rparr>"

text \<open>One bar of the provider, with its extra fields, and a response body of bars.\<close>

definition bar :: "real \<Rightarrow> real \<Rightarrow> json" where
  "bar t price =
     JObj [(''v'', JNum 100), (''vw'', JNum price), (''o'', JNum price), (''c'', JNum price),
           (''h'', JNum price), (''l'', JNum price), (''t'', JNum t), (''n'', JNum 7)]"

definition ok_reply :: "real \<Rightarrow> json list \<Rightarrow> reply" where
  "ok_reply count recs =
     \<lparr>elapsed = 1,
      outcome = Inr \<lparr>status_code = 200,
                     json_body = Some (JObj [(''ticker'', JStr ''SPY''),
                                             (''resultsCount'', JNum count),
                                             (''results'', JArr recs)])\<rparr>\<rparr>"

text \<open>A provider that answers every request with status 429 (too many requests).\<close>

definition provider_429 :: "string \<Rightarrow> (string \<times> string) list \<Rightarrow> reply" where
  "provider_429 url ps = \<lparr>elapsed = 1, outcome = Inr \<lparr>status_code = 429, json_body = None\<rparr>\<rparr>"

text \<open>A provider that has no bars for any day.\<close>

definition provider_holiday :: "string \<Rightarrow> (string \<times> string) list \<Rightarrow> reply" where
  "provider_holiday url ps = ok_reply 0 []"

text \<open>A provider with the same two bars, 09:30 and 09:31 in New York, for every day.\<close>

definition provider_two_bars :: "string \<Rightarrow> (string \<times> string) list \<Rightarrow> reply" where
  "provider_two_bars url ps = ok_reply 2 [bar 1748871000000 590, bar 1748871060000 591]"

text \<open>A provider with two bars for 2 June 2025 and an error for every other day.\<close>

definition provider_june2 :: "string \<Rightarrow> (string \<times> string) list \<Rightarrow> reply" where
  "provider_june2 url ps =
     (if url = ROOT_URL ''SPY'' ''2025-06-02''
      then provider_two_bars url ps
      else provider_429 url ps)"

text \<open>A provider that reports a count of zero beside a bar.\<close>

definition provider_zero_count :: "string \<Rightarrow> (string \<times> string) list \<Rightarrow> reply" where
  "provider_zero_count url ps = ok_reply 0 [bar 1748871000000 590]"

text \<open>A provider whose two bars come in descending order.\<close>

definition provider_unsorted :: "string \<Rightarrow> (string \<times> string) list \<Rightarrow> reply" where
  "provider_unsorted url ps = ok_reply 2 [bar 1748871060000 591, bar 1748871000000 590]"

text \<open>The state of a first run at time 0 in an empty output directory.\<close>

definition fresh :: state where
  "fresh = \<lparr>reqs_in_window = 0, window_start = 0, clock = 0, files = Map.empty,
            console = [], events = [], raised = None\<rparr>"

text \<open>The command line \<^verbatim>\<open>--ticker SPY --start 2025-06-02 --end 2025-06-03 --out data\<close>.\<close>

definition spy_args :: args where
  "spy_args = \<lparr>arg_ticker = ''SPY'', arg_start = ''2025-06-02'', arg_end = ''2025-06-03'',
               arg_out = ''data''\<rparr>"

text \<open>
  A first run of that command line against \<^const>\<open>provider_june2\<close>, and a second run from
  where the first ended, against a provider that has other bars for every day.
\<close>

definition first_run :: state where
  "first_run = main_loop (calendar_env provider_june2) ''data'' ''SPY''
                 [''2025-06-02'', ''2025-06-03''] fresh"

definition second_run :: state where
  "second_run = main_loop (calendar_env provider_unsorted) ''data'' ''SPY''
                  [''2025-06-02'', ''2025-06-03'']
                  (first_run\<lparr>reqs_in_window := 0, window_start := clock first_run,
                             raised := None\<rparr>)"

text \<open>The frame of the two bars of \<^const>\<open>provider_two_bars\<close>.\<close>

definition two_bars_frame :: dataframe where
  "two_bars_frame =
     \<lparr>index_name = Some ''datetime'',
      index = [Time \<lparr>epoch_ms = 1748871000000, tz = ''America/New_York''\<rparr>,
               Time \<lparr>epoch_ms = 1748871060000, tz = ''America/New_York''\<rparr>],
      columns = [(''open'', [Val (JNum 590), Val (JNum 591)]),
                 (''high'', [Val (JNum 590), Val (JNum 591)]),
                 (''low'', [Val (JNum 590), Val (JNum 591)]),
                 (''close'', [Val (JNum 590), Val (JNum 591)]),
                 (''volume'', [Val (JNum 100), Val (JNum 100)])]\<rparr>"

text \<open>The state after the day 2 June 2025 has been fetched and written for \<^verbatim>\<open>I:SPX\<close>.\<close>

definition spx_run :: state where
  "spx_run = step (calendar_env provider_two_bars) ''data'' ''I:SPX'' ''2025-06-02'' fresh"

text \<open>The same calendar and bars for every day, on a disk that takes no write.\<close>

definition full_disk_env :: env where
  "full_disk_env =
     (calendar_env provider_two_bars)
       \<lparr>to_csv := (\<lambda>path df. Some (OSError ''No space left on device'', None))\<rparr>"

text \<open>The six trading days from Monday 2 June 2025.\<close>

definition six_days :: "string list" where
  "six_days = [''2025-06-02'', ''2025-06-03'', ''2025-06-04'', ''2025-06-05'', ''2025-06-06'',
               ''2025-06-09'']"

section \<open>Properties of the sequencer\<close>

lemma BDay_gt: "cur < BDay cur"
  unfolding BDay_def weekday_def Let_def by presburger

lemma daterange_loop_elems:
  "d \<in> set (daterange_loop cur end) \<Longrightarrow> cur \<le> d \<and> d \<le> end \<and> weekday d < 5"
proof (induction cur "end" rule: daterange_loop.induct)
  case (1 cur e)
  show ?case
  proof (cases "cur \<le> e")
    case False
    with "1.prems" show ?thesis by (simp add: daterange_loop.simps [of cur e])
  next
    case True
    from "1.prems" True
    have "(weekday cur < 5 \<and> d = cur) \<or> d \<in> set (daterange_loop (BDay cur) e)"
      by (auto simp: daterange_loop.simps [of cur e] split: if_splits)
    then show ?thesis
    proof
      assume "weekday cur < 5 \<and> d = cur"
      with True show ?thesis by simp
    next
      assume "d \<in> set (daterange_loop (BDay cur) e)"
      from "1.IH" [OF True this] BDay_gt [of cur] show ?thesis by simp
    qed
  qed
qed

lemma daterange_loop_increasing: "sorted_wrt (<) (daterange_loop cur end)"
proof (induction cur "end" rule: daterange_loop.induct)
  case (1 cur e)
  show ?case
  proof (cases "cur \<le> e")
    case False
    then show ?thesis by (simp add: daterange_loop.simps [of cur e])
  next
    case True
    have later: "cur < d" if "d \<in> set (daterange_loop (BDay cur) e)" for d
      using daterange_loop_elems [OF that] BDay_gt [of cur] by simp
    from "1.IH" [OF True] later True show ?thesis
      by (simp add: daterange_loop.simps [of cur e])
  qed
qed

text \<open>
  Claim C4. Whatever the two bounds parse to, \<^verbatim>\<open>daterange\<close> yields the renderings of
  timestamps that all fall on Monday to Friday (weekday 0 to 4), all lie between the start
  and the end inclusive, and are strictly increasing along the sequence.
\<close>

theorem daterange_weekdays_in_bounds_increasing:
  assumes "to_datetime E start = Inr lo" and "to_datetime E end = Inr hi"
  shows "\<exists>ts. daterange E start end = Inr (map (strftime E) ts)
              \<and> (\<forall>d \<in> set ts. 0 \<le> weekday d \<and> weekday d \<le> 4 \<and> lo \<le> d \<and> d \<le> hi)
              \<and> sorted_wrt (<) ts"
proof (intro exI conjI ballI)
  show "daterange E start end = Inr (map (strftime E) (daterange_loop lo hi))"
    using assms by (simp add: daterange_def bind_exn_def)
next
  fix d assume "d \<in> set (daterange_loop lo hi)"
  from daterange_loop_elems [OF this]
  show "0 \<le> weekday d" "weekday d \<le> 4" "lo \<le> d" "d \<le> hi"
    by (simp_all add: weekday_def)
next
  show "sorted_wrt (<) (daterange_loop lo hi)" by (rule daterange_loop_increasing)
qed

theorem daterange_weekdays_in_bounds_increasing_witness:
  "to_datetime (calendar_env provider_holiday) ''2025-05-31'' = Inr 739402
   \<and> to_datetime (calendar_env provider_holiday) ''2025-06-10'' = Inr 739412
   \<and> (\<exists>ts. daterange (calendar_env provider_holiday) ''2025-05-31'' ''2025-06-10''
              = Inr (map (strftime (calendar_env provider_holiday)) ts)
            \<and> (\<forall>d \<in> set ts. 0 \<le> weekday d \<and> weekday d \<le> 4 \<and> 739402 \<le> d \<and> d \<le> 739412)
            \<and> sorted_wrt (<) ts)
   \<and> daterange (calendar_env provider_holiday) ''2025-05-31'' ''2025-06-10''
       = Inr [''2025-06-02'', ''2025-06-03'', ''2025-06-04'', ''2025-06-05'', ''2025-06-06'',
              ''2025-06-09'', ''2025-06-10'']"
proof -
  have lo: "to_datetime (calendar_env provider_holiday) ''2025-05-31'' = Inr 739402"
    by code_simp
  have hi: "to_datetime (calendar_env provider_holiday) ''2025-06-10'' = Inr 739412"
    by code_simp
  have run: "daterange (calendar_env provider_holiday) ''2025-05-31'' ''2025-06-10''
       = Inr [''2025-06-02'', ''2025-06-03'', ''2025-06-04'', ''2025-06-05'', ''2025-06-06'',
              ''2025-06-09'', ''2025-06-10'']"
    by code_simp
  from daterange_weekdays_in_bounds_increasing [OF lo hi] lo hi run show ?thesis
    by blast
qed

text \<open>
  Claim C5. When the start parses to a later day than the end, \<^verbatim>\<open>daterange\<close> yields the
  empty sequence, as a normal result and not as an error.
\<close>

theorem daterange_empty_when_start_after_end:
  assumes "to_datetime E start = Inr lo" and "to_datetime E end = Inr hi" and "hi < lo"
  shows "daterange E start end = Inr []"
  using assms by (simp add: daterange_def bind_exn_def daterange_loop.simps [of lo hi])

theorem daterange_empty_when_start_after_end_witness:
  "to_datetime (calendar_env provider_holiday) ''2025-06-10'' = Inr 739412
   \<and> to_datetime (calendar_env provider_holiday) ''2025-06-02'' = Inr 739404
   \<and> (739404 :: int) < 739412
   \<and> daterange (calendar_env provider_holiday) ''2025-06-10'' ''2025-06-02'' = Inr []"
proof -
  have lo: "to_datetime (calendar_env provider_holiday) ''2025-06-10'' = Inr 739412"
    by code_simp
  have hi: "to_datetime (calendar_env provider_holiday) ''2025-06-02'' = Inr 739404"
    by code_simp
  have lt: "(739404 :: int) < 739412" by simp
  from daterange_empty_when_start_after_end [OF lo hi lt] lo hi lt show ?thesis
    by simp
qed

section \<open>Properties of the orchestrator\<close>

subsection \<open>What one step may change\<close>

lemma rate_limit_files [simp]: "files (rate_limit s) = files s"
  by (simp add: rate_limit_def sleep_def Let_def)

lemma rate_limit_console [simp]: "console (rate_limit s) = console s"
  by (simp add: rate_limit_def sleep_def Let_def)

lemma rate_limit_raised [simp]: "raised (rate_limit s) = raised s"
  by (simp add: rate_limit_def sleep_def Let_def)

lemma rate_limit_events:
  "\<exists>new. events (rate_limit s) = events s @ new \<and> (\<forall>tm u ps. Get tm u ps \<notin> set new)"
  by (simp add: rate_limit_def sleep_def Let_def)

lemma fetch_day_state:
  "snd (fetch_day E ticker day s) =
     s\<lparr>events := events s @ [Get (clock s) (ROOT_URL ticker day) (params E)],
       clock := clock s + elapsed (requests_get E (ROOT_URL ticker day) (params E))\<rparr>"
  by (simp add: fetch_day_def Let_def)

lemma step_skip:
  "files s (csv_path outdir ticker day) \<noteq> None \<Longrightarrow>
   step E outdir ticker day s = s\<lparr>console := console s @ [Skip (csv_path outdir ticker day)]\<rparr>"
  by (simp add: step_def Let_def)

text \<open>The four ways a step ends on a day whose file is not there.\<close>

lemma step_fetch:
  assumes absent: "files s (csv_path outdir ticker day) = None"
  obtains
    (warn) e where
      "fst (fetch_day E ticker day (rate_limit s)) = Inl e"
      "step E outdir ticker day s
         = (snd (fetch_day E ticker day (rate_limit s)))\<lparr>console := console s @ [Warn day e]\<rparr>"
  | (info) df where
      "fst (fetch_day E ticker day (rate_limit s)) = Inr df"
      "step E outdir ticker day s
         = (snd (fetch_day E ticker day (rate_limit s)))
             \<lparr>console := console s @ [Info day],
              reqs_in_window := reqs_in_window (rate_limit s) + 1\<rparr>"
  | (error) df e left where
      "fst (fetch_day E ticker day (rate_limit s)) = Inr df"
      "step E outdir ticker day s
         = (snd (fetch_day E ticker day (rate_limit s)))
             \<lparr>files := (files s)(csv_path outdir ticker day := left), raised := Some e\<rparr>"
  | (ok) df where
      "fst (fetch_day E ticker day (rate_limit s)) = Inr df"
      "step E outdir ticker day s
         = (snd (fetch_day E ticker day (rate_limit s)))
             \<lparr>files := (files s)(csv_path outdir ticker day \<mapsto> df),
              console := console s @ [Ok (csv_path outdir ticker day) (df_len df)],
              reqs_in_window := reqs_in_window (rate_limit s) + 1\<rparr>"
proof -
  let ?path = "csv_path outdir ticker day"
  obtain r s' where f: "fetch_day E ticker day (rate_limit s) = (r, s')"
    by (cases "fetch_day E ticker day (rate_limit s)")
  from f fetch_day_state [of E ticker day "rate_limit s"]
  have s': "files s' = files s" "console s' = console s"
    "reqs_in_window s' = reqs_in_window (rate_limit s)"
    by auto
  show thesis
  proof (cases r)
    case (Inl e)
    with absent f s' have "step E outdir ticker day s = s'\<lparr>console := console s @ [Warn day e]\<rparr>"
      by (simp add: step_def Let_def)
    with f Inl show thesis by (intro warn [of e]) simp_all
  next
    case (Inr df)
    show thesis
    proof (cases "df_empty df")
      case True
      with absent f s' Inr
      have "step E outdir ticker day s
              = s'\<lparr>console := console s @ [Info day],
                    reqs_in_window := reqs_in_window (rate_limit s) + 1\<rparr>"
        by (simp add: step_def Let_def)
      with f Inr show thesis by (intro info [of df]) simp_all
    next
      case False
      show thesis
      proof (cases "to_csv E ?path df")
        case None
        with absent f s' Inr False
        have "step E outdir ticker day s
                = s'\<lparr>files := (files s)(?path \<mapsto> df),
                      console := console s @ [Ok ?path (df_len df)],
                      reqs_in_window := reqs_in_window (rate_limit s) + 1\<rparr>"
          by (simp add: step_def Let_def)
        with f Inr show thesis by (intro ok [of df]) simp_all
      next
        case (Some failure)
        obtain e left where "failure = (e, left)" by (cases failure)
        with Some absent f s' Inr False
        have "step E outdir ticker day s
                = s'\<lparr>files := (files s)(?path := left), raised := Some e\<rparr>"
          by (simp add: step_def Let_def)
        with f Inr show thesis by (intro error [of df e left]) simp_all
      qed
    qed
  qed
qed

lemma step_files_kept:
  assumes "files s p = Some df"
  shows "files (step E outdir ticker day s) p = Some df"
proof (cases "files s (csv_path outdir ticker day) = None")
  case False
  with assms show ?thesis by (simp add: step_skip)
next
  case True
  with assms have other: "p \<noteq> csv_path outdir ticker day" by auto
  from True show ?thesis
  proof (cases rule: step_fetch [where E = E])
    case (warn e)
    then show ?thesis using assms by (simp add: fetch_day_state)
  next
    case (info d)
    then show ?thesis using assms by (simp add: fetch_day_state)
  next
    case (error d e left)
    then show ?thesis using assms other by (simp add: fetch_day_state)
  next
    case (ok d)
    then show ?thesis using assms other by (simp add: fetch_day_state)
  qed
qed

lemma step_events:
  "\<exists>new. events (step E outdir ticker day s) = events s @ new \<and>
         (\<forall>tm u ps. Get tm u ps \<in> set new \<longrightarrow>
            u = ROOT_URL ticker day \<and> files s (csv_path outdir ticker day) = None)"
proof (cases "files s (csv_path outdir ticker day) = None")
  case False
  then show ?thesis by (simp add: step_skip)
next
  case True
  obtain new where new: "events (rate_limit s) = events s @ new" "\<forall>tm u ps. Get tm u ps \<notin> set new"
    using rate_limit_events [of s] by blast
  have sent: "events (snd (fetch_day E ticker day (rate_limit s)))
          = events s @ new @ [Get (clock (rate_limit s)) (ROOT_URL ticker day) (params E)]"
    by (simp add: fetch_day_state new)
  have "events (step E outdir ticker day s) = events (snd (fetch_day E ticker day (rate_limit s)))"
    using True by (cases rule: step_fetch [where E = E]) simp_all
  with sent new(2) True show ?thesis by auto
qed

lemma main_loop_stop:
  "raised (step E outdir ticker day s) \<noteq> None \<Longrightarrow>
   main_loop E outdir ticker (day # days) s = step E outdir ticker day s"
  by (auto simp: Let_def)

lemma main_loop_go:
  "raised (step E outdir ticker day s) = None \<Longrightarrow>
   main_loop E outdir ticker (day # days) s
     = main_loop E outdir ticker days (step E outdir ticker day s)"
  by (simp add: Let_def)

lemma main_loop_files_kept:
  "files s p = Some df \<Longrightarrow> files (main_loop E outdir ticker days s) p = Some df"
proof (induction days arbitrary: s)
  case Nil
  then show ?case by simp
next
  case (Cons day days)
  from Cons.prems have kept: "files (step E outdir ticker day s) p = Some df"
    by (rule step_files_kept)
  show ?case
  proof (cases "raised (step E outdir ticker day s) = None")
    case True
    from Cons.IH [OF kept] show ?thesis by (simp only: main_loop_go [OF True])
  next
    case False
    from kept show ?thesis by (simp only: main_loop_stop [OF False])
  qed
qed

lemma main_loop_events:
  "\<exists>new. events (main_loop E outdir ticker days s) = events s @ new \<and>
         (\<forall>tm u ps. Get tm u ps \<in> set new \<longrightarrow>
            (\<exists>day \<in> set days. u = ROOT_URL ticker day \<and> files s (csv_path outdir ticker day) = None))"
proof (induction days arbitrary: s)
  case Nil
  then show ?case by simp
next
  case (Cons day days)
  let ?s = "step E outdir ticker day s"
  obtain new1 where n1: "events ?s = events s @ new1"
    "\<forall>tm u ps. Get tm u ps \<in> set new1 \<longrightarrow>
        u = ROOT_URL ticker day \<and> files s (csv_path outdir ticker day) = None"
    using step_events [of E outdir ticker day s] by blast
  show ?case
  proof (cases "raised ?s = None")
    case False
    have "events (main_loop E outdir ticker (day # days) s) = events s @ new1"
      by (simp only: main_loop_stop [OF False] n1(1))
    with n1(2) show ?thesis by auto
  next
    case True
    obtain new2 where n2: "events (main_loop E outdir ticker days ?s) = events ?s @ new2"
      "\<forall>tm u ps. Get tm u ps \<in> set new2 \<longrightarrow>
          (\<exists>d \<in> set days. u = ROOT_URL ticker d \<and> files ?s (csv_path outdir ticker d) = None)"
      using Cons.IH [of ?s] by blast
    have earlier: "files s p = None" if "files ?s p = None" for p
      using that step_files_kept [of s p _ E outdir ticker day] by (cases "files s p") auto
    have "events (main_loop E outdir ticker (day # days) s) = events s @ (new1 @ new2)"
      by (simp only: main_loop_go [OF True] n1(1) n2(1) append_assoc)
    moreover have "\<exists>d \<in> set (day # days). u = ROOT_URL ticker d \<and> files s (csv_path outdir ticker d) = None"
      if g: "Get tm u ps \<in> set (new1 @ new2)" for tm u ps
    proof (cases "Get tm u ps \<in> set new1")
      case True
      with n1(2) show ?thesis by auto
    next
      case False
      with g have "Get tm u ps \<in> set new2" by simp
      with n2(2) obtain d where "d \<in> set days" "u = ROOT_URL ticker d"
        "files ?s (csv_path outdir ticker d) = None" by blast
      with earlier [of "csv_path outdir ticker d"] show ?thesis by auto
    qed
    ultimately show ?thesis by blast
  qed
qed

subsection \<open>One line for each day\<close>



lemma ROOT_URL_inj: "ROOT_URL ticker day = ROOT_URL ticker day' \<Longrightarrow> day = day'"
proof -
  assume "ROOT_URL ticker day = ROOT_URL ticker day'"
  then have eq: "day @ ''/'' @ day = day' @ ''/'' @ day'"
    by (simp add: ROOT_URL_def)
  then have "length (day @ ''/'' @ day) = length (day' @ ''/'' @ day')" by simp
  then have "length day = length day'" by simp
  with eq show ?thesis by simp
qed

lemma main_loop_no_request:
  assumes "files s (csv_path outdir ticker day) \<noteq> None"
  shows "Get tm (ROOT_URL ticker day) ps \<notin> set (events_since s (main_loop E outdir ticker days s))"
proof
  assume g: "Get tm (ROOT_URL ticker day) ps \<in> set (events_since s (main_loop E outdir ticker days s))"
  obtain new where new: "events (main_loop E outdir ticker days s) = events s @ new"
    "\<forall>tm u ps. Get tm u ps \<in> set new \<longrightarrow>
        (\<exists>d \<in> set days. u = ROOT_URL ticker d \<and> files s (csv_path outdir ticker d) = None)"
    using main_loop_events [of E outdir ticker days s] by blast
  from g new(1) have "Get tm (ROOT_URL ticker day) ps \<in> set new"
    by (simp add: events_since_def)
  with new(2) obtain d where "ROOT_URL ticker day = ROOT_URL ticker d"
    "files s (csv_path outdir ticker d) = None" by blast
  with ROOT_URL_inj [of ticker day d] assms show False by simp
qed


text \<open>
  A write error is not caught: the run ends on the first day, with no line printed for it,
  and the second day is never fetched.
\<close>

lemma write_error_ends_the_run:
  "raised (main_loop full_disk_env ''data'' ''SPY'' [''2025-06-02'', ''2025-06-03''] fresh)
     = Some (OSError ''No space left on device'')
   \<and> events (main_loop full_disk_env ''data'' ''SPY'' [''2025-06-02'', ''2025-06-03''] fresh)
       = [Get 0 (ROOT_URL ''SPY'' ''2025-06-02'') (params full_disk_env)]
   \<and> console (main_loop full_disk_env ''data'' ''SPY'' [''2025-06-02'', ''2025-06-03''] fresh) = []"
  by code_simp

subsection \<open>Runs of \<^verbatim>\<open>main\<close>\<close>

lemma fst_fetch_day:
  "outcome (requests_get E (ROOT_URL ticker day) (params E)) = Inr r \<Longrightarrow>
   fst (fetch_day E ticker day s) = fetch_day_frame r"
  by (simp add: fetch_day_def Let_def bind_exn_def)

lemma main_run:
  "main E a s = Inr s' \<Longrightarrow>
   \<exists>days. s' = main_loop E (arg_out a) (arg_ticker a) days
                  (s\<lparr>reqs_in_window := 0, window_start := clock s, raised := None\<rparr>)"
  by (auto simp: main_def bind_exn_def split: sum.splits)

lemma spy_days:
  "daterange (calendar_env provider) ''2025-06-02'' ''2025-06-03'' = Inr [''2025-06-02'', ''2025-06-03'']"
proof -
  have lo: "fromisoformat ''2025-06-02'' = Inr 739404" by code_simp
  have hi: "fromisoformat ''2025-06-03'' = Inr 739405" by code_simp
  have l: "daterange_loop 739404 739405 = [739404, 739405]" by code_simp
  have f: "isoformat 739404 = ''2025-06-02''" "isoformat 739405 = ''2025-06-03''"
    by code_simp+
  show ?thesis
    by (simp add: daterange_def calendar_env_def bind_exn_def lo hi l f)
qed

lemma spy_main:
  "main (calendar_env provider) spy_args s =
     Inr (main_loop (calendar_env provider) ''data'' ''SPY'' [''2025-06-02'', ''2025-06-03'']
            (s\<lparr>reqs_in_window := 0, window_start := clock s, raised := None\<rparr>))"
  by (simp add: main_def spy_args_def spy_days bind_exn_def)

lemma first_run_main: "main (calendar_env provider_june2) spy_args fresh = Inr first_run"
  by (simp add: spy_main first_run_def fresh_def)

lemma second_run_main: "main (calendar_env provider_unsorted) spy_args first_run = Inr second_run"
  by (simp add: spy_main second_run_def)

lemma first_run_file:
  "files first_run (csv_path ''data'' ''SPY'' ''2025-06-02'') = Some two_bars_frame"
  by code_simp

section \<open>Skipping, writing and failing days\<close>

text \<open>
  Claim C6. A day whose output file exists when the loop reaches it is only logged as
  skipped: the step leaves the clock, the rate window, the files and the list of requests
  and sleeps as they were. Hence a second run with the same arguments, from the files the
  first run left, sends no request for any day whose file is there after the first run.
\<close>

theorem existing_file_means_no_request:
  assumes "main E a s0 = Inr s1" and "files s2 = files s1" and "main E' a s2 = Inr s3"
    and "files s1 (csv_path (arg_out a) (arg_ticker a) day) \<noteq> None"
  shows "(files s (csv_path outdir ticker d) \<noteq> None \<longrightarrow>
            step E'' outdir ticker d s = s\<lparr>console := console s @ [Skip (csv_path outdir ticker d)]\<rparr>)
         \<and> (\<forall>tm ps. Get tm (ROOT_URL (arg_ticker a) day) ps \<notin> set (events_since s2 s3))"
proof
  show "files s (csv_path outdir ticker d) \<noteq> None \<longrightarrow>
        step E'' outdir ticker d s = s\<lparr>console := console s @ [Skip (csv_path outdir ticker d)]\<rparr>"
    by (simp add: step_skip)
  let ?s = "s2\<lparr>reqs_in_window := 0, window_start := clock s2, raised := None\<rparr>"
  from main_run [OF assms(3)] obtain days
    where s3: "s3 = main_loop E' (arg_out a) (arg_ticker a) days ?s" by blast
  from assms(2,4) have "files ?s (csv_path (arg_out a) (arg_ticker a) day) \<noteq> None" by simp
  from main_loop_no_request [OF this]
  have "Get tm (ROOT_URL (arg_ticker a) day) ps \<notin> set (events_since ?s s3)" for tm ps
    unfolding s3 .
  then show "\<forall>tm ps. Get tm (ROOT_URL (arg_ticker a) day) ps \<notin> set (events_since s2 s3)"
    by (simp add: events_since_def)
qed

theorem existing_file_means_no_request_witness:
  "main (calendar_env provider_june2) spy_args fresh = Inr first_run
   \<and> files first_run = files first_run
   \<and> main (calendar_env provider_unsorted) spy_args first_run = Inr second_run
   \<and> files first_run (csv_path (arg_out spy_args) (arg_ticker spy_args) ''2025-06-02'') \<noteq> None
   \<and> step (calendar_env provider_unsorted) ''data'' ''SPY'' ''2025-06-02'' first_run
       = first_run\<lparr>console := console first_run @ [Skip (csv_path ''data'' ''SPY'' ''2025-06-02'')]\<rparr>
   \<and> (\<forall>tm ps. Get tm (ROOT_URL (arg_ticker spy_args) ''2025-06-02'') ps
                 \<notin> set (events_since first_run second_run))"
proof -
  have f: "files first_run (csv_path (arg_out spy_args) (arg_ticker spy_args) ''2025-06-02'') \<noteq> None"
    by (simp add: spy_args_def first_run_file)
  have f': "files first_run (csv_path ''data'' ''SPY'' ''2025-06-02'') \<noteq> None"
    by (simp add: first_run_file)
  from existing_file_means_no_request [OF first_run_main refl second_run_main f,
      of first_run "''data''" "''SPY''" "''2025-06-02''" "calendar_env provider_unsorted"]
    first_run_main second_run_main f f'
  show ?thesis by simp
qed

text \<open>
  Claim C7. A file that exists is never written again: one step of the loop, and a whole
  run of \<^verbatim>\<open>main\<close> from any state (so any later run too), keep its content.
\<close>

theorem existing_file_never_overwritten:
  assumes "files s p = Some df"
  shows "files (step E outdir ticker day s) p = Some df
         \<and> (\<forall>s'. main E a s = Inr s' \<longrightarrow> files s' p = Some df)"
proof (intro conjI allI impI)
  show "files (step E outdir ticker day s) p = Some df"
    by (rule step_files_kept [OF assms])
next
  fix s' assume "main E a s = Inr s'"
  from main_run [OF this] obtain days
    where s': "s' = main_loop E (arg_out a) (arg_ticker a) days
                      (s\<lparr>reqs_in_window := 0, window_start := clock s, raised := None\<rparr>)"
    by blast
  from assms
  have "files (s\<lparr>reqs_in_window := 0, window_start := clock s, raised := None\<rparr>) p = Some df"
    by simp
  from main_loop_files_kept [OF this] show "files s' p = Some df"
    unfolding s' .
qed

theorem existing_file_never_overwritten_witness:
  "files first_run (csv_path ''data'' ''SPY'' ''2025-06-02'') = Some two_bars_frame
   \<and> files (step (calendar_env provider_unsorted) ''data'' ''SPY'' ''2025-06-02'' first_run)
        (csv_path ''data'' ''SPY'' ''2025-06-02'') = Some two_bars_frame
   \<and> main (calendar_env provider_unsorted) spy_args first_run = Inr second_run
   \<and> files second_run (csv_path ''data'' ''SPY'' ''2025-06-02'') = Some two_bars_frame"
  using existing_file_never_overwritten [OF first_run_file,
      of "calendar_env provider_unsorted" "''data''" "''SPY''" "''2025-06-02''" spy_args]
    first_run_file second_run_main
  by simp



text \<open>
  Claim C9. Two tickers that are equal after replacing \<^verbatim>\<open>:\<close> by \<^verbatim>\<open>_\<close> have the same output
  path for a day; so when the file of one exists, the day of the other is skipped and no
  request is sent for it in the rest of the run.
\<close>

theorem colon_and_underscore_tickers_share_the_file:
  assumes "replace (CHR '':'') (CHR ''_'') ticker = replace (CHR '':'') (CHR ''_'') ticker'"
  shows "csv_path outdir ticker day = csv_path outdir ticker' day
         \<and> (files s (csv_path outdir ticker day) \<noteq> None \<longrightarrow>
              step E outdir ticker' day s
                = s\<lparr>console := console s @ [Skip (csv_path outdir ticker' day)]\<rparr>
              \<and> (\<forall>tm ps. Get tm (ROOT_URL ticker' day) ps
                     \<notin> set (events_since s (main_loop E outdir ticker' days s))))"
proof -
  have same: "csv_path outdir ticker day = csv_path outdir ticker' day"
    using assms by (simp add: csv_path_def)
  show ?thesis
  proof (intro conjI impI allI)
    show "csv_path outdir ticker day = csv_path outdir ticker' day" by (rule same)
  next
    assume "files s (csv_path outdir ticker day) \<noteq> None"
    then show "step E outdir ticker' day s
                = s\<lparr>console := console s @ [Skip (csv_path outdir ticker' day)]\<rparr>"
      by (simp add: same step_skip)
  next
    fix tm ps
    assume "files s (csv_path outdir ticker day) \<noteq> None"
    then have "files s (csv_path outdir ticker' day) \<noteq> None" by (simp add: same)
    from main_loop_no_request [OF this]
    show "Get tm (ROOT_URL ticker' day) ps
            \<notin> set (events_since s (main_loop E outdir ticker' days s))" .
  qed
qed

theorem colon_and_underscore_tickers_share_the_file_witness:
  "replace (CHR '':'') (CHR ''_'') ''I:SPX'' = replace (CHR '':'') (CHR ''_'') ''I_SPX''
   \<and> ''I:SPX'' \<noteq> ''I_SPX''
   \<and> csv_path ''data'' ''I:SPX'' ''2025-06-02'' = csv_path ''data'' ''I_SPX'' ''2025-06-02''
   \<and> files spx_run (csv_path ''data'' ''I:SPX'' ''2025-06-02'') \<noteq> None
   \<and> step (calendar_env provider_two_bars) ''data'' ''I_SPX'' ''2025-06-02'' spx_run
       = spx_run\<lparr>console := console spx_run @ [Skip (csv_path ''data'' ''I_SPX'' ''2025-06-02'')]\<rparr>
   \<and> (\<forall>tm ps. Get tm (ROOT_URL ''I_SPX'' ''2025-06-02'') ps
          \<notin> set (events_since spx_run
                   (main_loop (calendar_env provider_two_bars) ''data'' ''I_SPX'' six_days spx_run)))"
proof -
  have same: "replace (CHR '':'') (CHR ''_'') ''I:SPX'' = replace (CHR '':'') (CHR ''_'') ''I_SPX''"
    by (simp add: replace_def)
  have differ: "''I:SPX'' \<noteq> ''I_SPX''" by simp
  have there: "files spx_run (csv_path ''data'' ''I:SPX'' ''2025-06-02'') \<noteq> None"
    by code_simp
  from colon_and_underscore_tickers_share_the_file [OF same,
      of "''data''" "''2025-06-02''" spx_run "calendar_env provider_two_bars" six_days]
    same differ there
  show ?thesis by blast
qed

section \<open>The frame of a response\<close>

text \<open>
  Claim C10. When the response is not an HTTP error and its body is a \<^verbatim>\<open>dict\<close> that has no
  \<^verbatim>\<open>resultsCount\<close> or has it as 0, \<^verbatim>\<open>fetch_day\<close> returns the empty frame, whatever else the
  body holds: a list of results beside the count is never looked at.
\<close>

theorem zero_or_missing_count_gives_empty_frame:
  assumes "outcome (requests_get E (ROOT_URL ticker day) (params E)) = Inr r"
    and "\<not> (400 \<le> status_code r \<and> status_code r < 600)"
    and "json_body r = Some (JObj items)"
    and "map_of items ''resultsCount'' = None \<or> map_of items ''resultsCount'' = Some (JNum 0)"
  shows "fst (fetch_day E ticker day s) = Inr DataFrame_empty"
  using assms(2-4) unfolding fst_fetch_day [OF assms(1)]
  by (auto simp: fetch_day_frame_def bind_exn_def)

theorem zero_or_missing_count_gives_empty_frame_witness:
  "outcome (requests_get (calendar_env provider_zero_count) (ROOT_URL ''SPY'' ''2025-06-02'')
              (params (calendar_env provider_zero_count)))
     = Inr \<lparr>status_code = 200,
            json_body = Some (JObj [(''ticker'', JStr ''SPY''), (''resultsCount'', JNum 0),
                                    (''results'', JArr [bar 1748871000000 590])])\<rparr>
   \<and> map_of [(''ticker'', JStr ''SPY''), (''resultsCount'', JNum 0),
              (''results'', JArr [bar 1748871000000 590])] ''resultsCount'' = Some (JNum 0)
   \<and> map_of [(''ticker'', JStr ''SPY''), (''resultsCount'', JNum 0),
              (''results'', JArr [bar 1748871000000 590])] ''results''
       = Some (JArr [bar 1748871000000 590])
   \<and> fst (fetch_day (calendar_env provider_zero_count) ''SPY'' ''2025-06-02'' fresh)
       = Inr DataFrame_empty"
proof -
  let ?items = "[(''ticker'', JStr ''SPY''), (''resultsCount'', JNum 0),
                 (''results'', JArr [bar 1748871000000 590])]"
  let ?r = "\<lparr>status_code = 200, json_body = Some (JObj ?items)\<rparr>"
  have got: "outcome (requests_get (calendar_env provider_zero_count) (ROOT_URL ''SPY'' ''2025-06-02'')
              (params (calendar_env provider_zero_count))) = Inr ?r"
    by (simp add: calendar_env_def provider_zero_count_def ok_reply_def)
  have ok: "\<not> (400 \<le> status_code ?r \<and> status_code ?r < 600)" by simp
  have body: "json_body ?r = Some (JObj ?items)" by simp
  have zero: "map_of ?items ''resultsCount'' = None \<or> map_of ?items ''resultsCount'' = Some (JNum 0)"
    by simp
  from zero_or_missing_count_gives_empty_frame [OF got ok body zero, of fresh] got
  show ?thesis by simp
qed

lemma lookup_key: "lookup rec k \<noteq> NaN \<Longrightarrow> k \<in> set (keys rec)"
  by (cases rec) (auto split: option.splits dest: map_of_SomeD intro: rev_image_eqI)

lemma DataFrame_records:
  assumes "list_all is_dict recs"
  shows "DataFrame (JArr recs) =
         Inr \<lparr>index_name = None,
              index = map (\<lambda>i. Val (JNum (real i))) [0..<length recs],
              columns = map (\<lambda>k. (k, map (\<lambda>r. lookup r k) recs))
                            (rev (remdups (rev (concat (map keys recs)))))\<rparr>"
  using assms by (simp add: DataFrame_def)

lemma column_of_key:
  assumes "rec \<in> set recs" and "lookup rec k \<noteq> NaN"
  shows "map_of (map (\<lambda>k. (k, map (\<lambda>r. lookup r k) recs))
                     (rev (remdups (rev (concat (map keys recs)))))) k
         = Some (map (\<lambda>r. lookup r k) recs)"
proof -
  from assms have "k \<in> set (rev (remdups (rev (concat (map keys recs)))))"
    using lookup_key [of rec k] by auto
  then show ?thesis by (simp add: map_of_map_restrict)
qed

lemma to_datetime_bars:
  "\<forall>rec \<in> set recs. is_bar rec \<Longrightarrow>
   map_exn to_datetime_ms (map (\<lambda>r. lookup r ''t'') recs)
     = Inr (map (\<lambda>r. Time \<lparr>epoch_ms = bar_t r, tz = ''UTC''\<rparr>) recs)"
proof (induction recs)
  case Nil
  then show ?case by simp
next
  case (Cons rec recs)
  from Cons.prems have "is_bar rec" by simp
  then obtain t where t: "lookup rec ''t'' = Val (JNum t)"
    "- (2 ^ 63) < t * 1000000" "t * 1000000 < 2 ^ 63"
    by (auto simp: is_bar_def split: cell.splits json.splits)
  with Cons show ?case by (simp add: bar_t_def)
qed

lemma monotonic_bars:
  "is_monotonic_increasing (map (\<lambda>r. Time \<lparr>epoch_ms = f r, tz = z\<rparr>) recs) = sorted (map f recs)"
  by (simp add: is_monotonic_increasing_def list_all_iff comp_def)

text \<open>
  Claim C3, as the code has it. For a response that is not an HTTP error, with a nonzero
  \<^verbatim>\<open>resultsCount\<close> and a nonempty list of result records, \<^verbatim>\<open>fetch_day\<close> returns a frame
  indexed by the records' instants shown in the zone \<^verbatim>\<open>America/New_York\<close>, with the columns
  \<^verbatim>\<open>open\<close>, \<^verbatim>\<open>high\<close>, \<^verbatim>\<open>low\<close>, \<^verbatim>\<open>close\<close>, \<^verbatim>\<open>volume\<close>, in the order of the provider's list. The
  index is ascending exactly when the provider's list is: the code asks the provider for
  \<^verbatim>\<open>sort=asc\<close> and does not sort.
\<close>

theorem fetch_day_bars_in_provider_order:
  assumes "outcome (requests_get E (ROOT_URL ticker day) (params E)) = Inr r"
    and "\<not> (400 \<le> status_code r \<and> status_code r < 600)"
    and "json_body r = Some (JObj items)"
    and "map_of items ''resultsCount'' = Some cnt" and "\<not> eq_zero cnt"
    and "map_of items ''results'' = Some (JArr recs)" and "recs \<noteq> []"
    and "\<forall>rec \<in> set recs. is_bar rec"
  shows "fst (fetch_day E ticker day s) =
           Inr \<lparr>index_name = Some ''datetime'',
                index = map (\<lambda>rec. Time \<lparr>epoch_ms = bar_t rec, tz = ''America/New_York''\<rparr>) recs,
                columns = [(''open'', map (\<lambda>rec. lookup rec ''o'') recs),
                           (''high'', map (\<lambda>rec. lookup rec ''h'') recs),
                           (''low'', map (\<lambda>rec. lookup rec ''l'') recs),
                           (''close'', map (\<lambda>rec. lookup rec ''c'') recs),
                           (''volume'', map (\<lambda>rec. lookup rec ''v'') recs)]\<rparr>
         \<and> (is_monotonic_increasing
               (map (\<lambda>rec. Time \<lparr>epoch_ms = bar_t rec, tz = ''America/New_York''\<rparr>) recs)
              \<longleftrightarrow> sorted (map bar_t recs))"
proof -
  let ?cols = "map (\<lambda>k. (k, map (\<lambda>r. lookup r k) recs))
                   (rev (remdups (rev (concat (map keys recs)))))"
  let ?df = "\<lparr>index_name = None,
              index = map (\<lambda>i. Val (JNum (real i))) [0..<length recs],
              columns = ?cols\<rparr>"
  let ?dt = "map (\<lambda>rec. Time \<lparr>epoch_ms = bar_t rec, tz = ''America/New_York''\<rparr>) recs"
  from assms(7) obtain rec where rec: "rec \<in> set recs" by (cases recs) auto
  with assms(8) have bar: "is_bar rec" by simp
  have dicts: "list_all is_dict recs"
    using assms(8) by (simp add: list_all_iff is_bar_def)
  have frame: "DataFrame (JArr recs) = Inr ?df"
    by (rule DataFrame_records [OF dicts])
  have t_nonNaN: "lookup rec ''t'' \<noteq> NaN"
    using bar by (auto simp: is_bar_def split: cell.splits)
  have col: "map_of ?cols k = Some (map (\<lambda>r. lookup r k) recs)"
    if "k \<in> {''t'', ''o'', ''h'', ''l'', ''c'', ''v''}" for k
  proof -
    from that bar t_nonNaN have "lookup rec k \<noteq> NaN"
      by (auto simp: is_bar_def)
    from column_of_key [OF rec this] show ?thesis .
  qed
  have t: "getitem ?df ''t'' = Inr (map (\<lambda>r. lookup r ''t'') recs)"
    by (simp add: getitem_def col)
  have dt: "map_exn to_datetime_ms (map (\<lambda>r. lookup r ''t'') recs)
              = Inr (map (\<lambda>r. Time \<lparr>epoch_ms = bar_t r, tz = ''UTC''\<rparr>) recs)"
    by (rule to_datetime_bars [OF assms(8)])
  have conv: "map (tz_convert ''America/New_York'')
                (map (\<lambda>r. Time \<lparr>epoch_ms = bar_t r, tz = ''UTC''\<rparr>) recs) = ?dt"
    by simp
  have sel: "select (setitem ?df ''datetime'' ?dt) [''datetime'', ''o'', ''h'', ''l'', ''c'', ''v'']
      = Inr \<lparr>index_name = None,
             index = map (\<lambda>i. Val (JNum (real i))) [0..<length recs],
             columns = [(''datetime'', ?dt),
                        (''o'', map (\<lambda>rec. lookup rec ''o'') recs),
                        (''h'', map (\<lambda>rec. lookup rec ''h'') recs),
                        (''l'', map (\<lambda>rec. lookup rec ''l'') recs),
                        (''c'', map (\<lambda>rec. lookup rec ''c'') recs),
                        (''v'', map (\<lambda>rec. lookup rec ''v'') recs)]\<rparr>"
    by (simp add: select_def setitem_def update_conv' col)
  have frame_of: "fetch_day_frame r =
           Inr \<lparr>index_name = Some ''datetime'', index = ?dt,
                columns = [(''open'', map (\<lambda>rec. lookup rec ''o'') recs),
                           (''high'', map (\<lambda>rec. lookup rec ''h'') recs),
                           (''low'', map (\<lambda>rec. lookup rec ''l'') recs),
                           (''close'', map (\<lambda>rec. lookup rec ''c'') recs),
                           (''volume'', map (\<lambda>rec. lookup rec ''v'') recs)]\<rparr>"
    using assms(2-6)
    by (simp add: fetch_day_frame_def bind_exn_def frame t dt conv sel rename_def set_index_def
          del: map_map)
  show ?thesis
    using fst_fetch_day [OF assms(1)] frame_of monotonic_bars [of bar_t] by simp
qed

theorem fetch_day_bars_in_provider_order_witness:
  "outcome (requests_get (calendar_env provider_two_bars) (ROOT_URL ''SPY'' ''2025-06-02'')
              (params (calendar_env provider_two_bars)))
     = Inr \<lparr>status_code = 200,
            json_body = Some (JObj [(''ticker'', JStr ''SPY''), (''resultsCount'', JNum 2),
                                    (''results'', JArr [bar 1748871000000 590,
                                                        bar 1748871060000 591])])\<rparr>
   \<and> \<not> eq_zero (JNum 2)
   \<and> is_bar (bar 1748871000000 590) \<and> is_bar (bar 1748871060000 591)
   \<and> sorted (map bar_t [bar 1748871000000 590, bar 1748871060000 591])
   \<and> fst (fetch_day (calendar_env provider_two_bars) ''SPY'' ''2025-06-02'' fresh)
       = Inr two_bars_frame
   \<and> is_monotonic_increasing (index two_bars_frame)"
proof -
  let ?recs = "[bar 1748871000000 590, bar 1748871060000 591]"
  let ?items = "[(''ticker'', JStr ''SPY''), (''resultsCount'', JNum 2), (''results'', JArr ?recs)]"
  let ?r = "\<lparr>status_code = 200, json_body = Some (JObj ?items)\<rparr>"
  have got: "outcome (requests_get (calendar_env provider_two_bars) (ROOT_URL ''SPY'' ''2025-06-02'')
              (params (calendar_env provider_two_bars))) = Inr ?r"
    by (simp add: calendar_env_def provider_two_bars_def ok_reply_def)
  have ok: "\<not> (400 \<le> status_code ?r \<and> status_code ?r < 600)" by simp
  have body: "json_body ?r = Some (JObj ?items)" by simp
  have cnt: "map_of ?items ''resultsCount'' = Some (JNum 2)" by simp
  have nonzero: "\<not> eq_zero (JNum 2)" by simp
  have res: "map_of ?items ''results'' = Some (JArr ?recs)" by simp
  have some: "?recs \<noteq> []" by simp
  have bars: "\<forall>rec \<in> set ?recs. is_bar rec" by (simp add: is_bar_def bar_def)
  have asc: "sorted (map bar_t ?recs)" by (simp add: bar_t_def bar_def)
  have idx: "map (\<lambda>rec. Time \<lparr>epoch_ms = bar_t rec, tz = ''America/New_York''\<rparr>) ?recs
               = index two_bars_frame"
    by (simp add: bar_t_def bar_def two_bars_frame_def)
  have cols: "[(''open'', map (\<lambda>rec. lookup rec ''o'') ?recs),
               (''high'', map (\<lambda>rec. lookup rec ''h'') ?recs),
               (''low'', map (\<lambda>rec. lookup rec ''l'') ?recs),
               (''close'', map (\<lambda>rec. lookup rec ''c'') ?recs),
               (''volume'', map (\<lambda>rec. lookup rec ''v'') ?recs)] = columns two_bars_frame"
    by (simp add: bar_def two_bars_frame_def)
  have whole: "\<lparr>index_name = Some ''datetime'', index = index two_bars_frame,
                 columns = columns two_bars_frame\<rparr> = two_bars_frame"
    by (simp add: two_bars_frame_def)
  from fetch_day_bars_in_provider_order [OF got ok body cnt nonzero res some bars, of fresh]
  have "fst (fetch_day (calendar_env provider_two_bars) ''SPY'' ''2025-06-02'' fresh)
          = Inr two_bars_frame"
    and "is_monotonic_increasing (index two_bars_frame) = sorted (map bar_t ?recs)"
    unfolding idx cols whole by blast+
  with got nonzero bars asc show ?thesis by simp
qed

text \<open>
  Claim C3, as stated, fails: a provider that answers with two bars in descending order
  gets them back in that order.
\<close>

theorem fetch_day_unsorted_counterexample:
  "fst (fetch_day (calendar_env provider_unsorted) ''SPY'' ''2025-06-02'' fresh)
     = Inr \<lparr>index_name = Some ''datetime'',
            index = [Time \<lparr>epoch_ms = 1748871060000, tz = ''America/New_York''\<rparr>,
                     Time \<lparr>epoch_ms = 1748871000000, tz = ''America/New_York''\<rparr>],
            columns = [(''open'', [Val (JNum 591), Val (JNum 590)]),
                       (''high'', [Val (JNum 591), Val (JNum 590)]),
                       (''low'', [Val (JNum 591), Val (JNum 590)]),
                       (''close'', [Val (JNum 591), Val (JNum 590)]),
                       (''volume'', [Val (JNum 100), Val (JNum 100)])]\<rparr>
   \<and> \<not> is_monotonic_increasing
          [Time \<lparr>epoch_ms = 1748871060000, tz = ''America/New_York''\<rparr>,
           Time \<lparr>epoch_ms = 1748871000000, tz = ''America/New_York''\<rparr>]"
  by code_simp

section \<open>The rate limiter and failed requests\<close>

text \<open>
  Claim C1, on the code. Against a provider that answers every request with status 429,
  six requests leave within six seconds of the start of the window, with no sleep between
  them, and the count is still 0 at the end: the \<^verbatim>\<open>continue\<close> of the \<^verbatim>\<open>except\<close> clause skips
  \<^verbatim>\<open>reqs_in_window += 1\<close>. Against a provider whose requests succeed, the sixth request
  waits until 60.1 seconds after the start of the window.
\<close>

theorem failed_requests_are_not_rate_limited:
  "events (main_loop (calendar_env provider_429) ''data'' ''SPY'' six_days fresh)
     = [Get 0 (ROOT_URL ''SPY'' ''2025-06-02'') (params (calendar_env provider_429)),
        Get 1 (ROOT_URL ''SPY'' ''2025-06-03'') (params (calendar_env provider_429)),
        Get 2 (ROOT_URL ''SPY'' ''2025-06-04'') (params (calendar_env provider_429)),
        Get 3 (ROOT_URL ''SPY'' ''2025-06-05'') (params (calendar_env provider_429)),
        Get 4 (ROOT_URL ''SPY'' ''2025-06-06'') (params (calendar_env provider_429)),
        Get 5 (ROOT_URL ''SPY'' ''2025-06-09'') (params (calendar_env provider_429))]
   \<and> window_start (main_loop (calendar_env provider_429) ''data'' ''SPY'' six_days fresh) = 0
   \<and> reqs_in_window (main_loop (calendar_env provider_429) ''data'' ''SPY'' six_days fresh) = 0
   \<and> events (main_loop (calendar_env provider_holiday) ''data'' ''SPY'' six_days fresh)
     = [Get 0 (ROOT_URL ''SPY'' ''2025-06-02'') (params (calendar_env provider_holiday)),
        Get 1 (ROOT_URL ''SPY'' ''2025-06-03'') (params (calendar_env provider_holiday)),
        Get 2 (ROOT_URL ''SPY'' ''2025-06-04'') (params (calendar_env provider_holiday)),
        Get 3 (ROOT_URL ''SPY'' ''2025-06-05'') (params (calendar_env provider_holiday)),
        Get 4 (ROOT_URL ''SPY'' ''2025-06-06'') (params (calendar_env provider_holiday)),
        Sleep 5 55.1,
        Get 60.1 (ROOT_URL ''SPY'' ''2025-06-09'') (params (calendar_env provider_holiday))]"
  by code_simp

text \<open>
  Claim C2, on the code. With three requests counted, a request that fails with status 429
  is sent and leaves the count at three; a request that succeeds, with or without bars,
  takes it to four.
\<close>

theorem failed_request_is_not_counted:
  "reqs_in_window (step (calendar_env provider_429) ''data'' ''SPY'' ''2025-06-02''
                     (fresh\<lparr>reqs_in_window := 3\<rparr>)) = 3
   \<and> events (step (calendar_env provider_429) ''data'' ''SPY'' ''2025-06-02''
                (fresh\<lparr>reqs_in_window := 3\<rparr>))
       = [Get 0 (ROOT_URL ''SPY'' ''2025-06-02'') (params (calendar_env provider_429))]
   \<and> reqs_in_window (step (calendar_env provider_holiday) ''data'' ''SPY'' ''2025-06-02''
                       (fresh\<lparr>reqs_in_window := 3\<rparr>)) = 4
   \<and> reqs_in_window (step (calendar_env provider_two_bars) ''data'' ''SPY'' ''2025-06-02''
                       (fresh\<lparr>reqs_in_window := 3\<rparr>)) = 4"
  by code_simp

end
